theory Spec2Isabelle
  imports Main "HOL-Library.Word"
begin

section \<open>The start command of temporalite: data model\<close>

text \<open>
  The development embeds \<^verbatim>\<open>cmd/temporalite/main.go\<close>: the \<^verbatim>\<open>Before\<close> and
  \<^verbatim>\<open>Action\<close> closures of the \<^verbatim>\<open>start\<close> command, \<^verbatim>\<open>searchAttributesValid\<close>,
  \<^verbatim>\<open>parseSearchAttributes\<close> and \<^verbatim>\<open>main\<close>.
\<close>

subsection \<open>Flag names (the constants of lines 31-39)\<close>

definition searchAttrType :: string where
  "searchAttrType = ''search-attributes-type''"

definition searchAttrKey :: string where
  "searchAttrKey = ''search-attributes-key''"

definition ephemeralFlag :: string where
  "ephemeralFlag = ''ephemeral''"

definition dbPathFlag :: string where
  "dbPathFlag = ''filename''"

definition logFormatFlag :: string where
  "logFormatFlag = ''log-format''"

subsection \<open>Errors and results\<close>

text \<open>
  A Go \<^verbatim>\<open>error\<close> value is either the exit-code-carrying error built by
  \<^verbatim>\<open>cli.Exit(message, code)\<close> or a plain error with its text (\<^verbatim>\<open>fmt.Errorf\<close>, and
  the errors handed back by the logger and the server). The \<^verbatim>\<open>nil\<close> error is
  \<open>None\<close> of \<open>error option\<close>.
\<close>

datatype error = Exit string int | Err string

text \<open>The only runtime fault of \<^verbatim>\<open>main.go\<close>: a slice read \<^verbatim>\<open>types[i]\<close> out of range.\<close>

datatype runtime_error = IndexOutOfRange nat nat

text \<open>A call either returns its values or panics.\<close>

datatype 'a go = Return 'a | Panic runtime_error

subsection \<open>The command-line context\<close>

text \<open>
  \<^verbatim>\<open>cli.Context\<close> as the closures see it: the positional arguments and, for each
  flag of lines 62-101, \<open>None\<close> when the user did not set it and \<open>Some v\<close> when the
  user set it to \<open>v\<close>. \<^verbatim>\<open>c.IsSet\<close> asks whether the field is \<open>Some\<close>; the typed
  getters return the user's value, or the flag's declared \<^verbatim>\<open>Value\<close> when unset.
  Go's \<^verbatim>\<open>int\<close> port is passed through unchanged and never computed with, so it is
  an \<open>int\<close> here.
\<close>

record Context =
  Args :: "string list"
  search_attributes_key :: "string list option"
  search_attributes_type :: "string list option"
  ephemeral :: "bool option"
  filename :: "string option"
  port :: "int option"
  log_format :: "string option"
  namespace :: "string list option"

text \<open>
  The flag defaults that come from package \<^verbatim>\<open>liteconfig\<close>, which is outside
  \<^verbatim>\<open>main.go\<close>: \<^verbatim>\<open>defaultCfg.Ephemeral\<close>, \<^verbatim>\<open>defaultCfg.DatabaseFilePath\<close> and
  \<^verbatim>\<open>liteconfig.DefaultFrontendPort\<close>. They are a parameter of the model.
\<close>

record Config =
  Ephemeral :: bool
  DatabaseFilePath :: string
  DefaultFrontendPort :: int

definition IsSet :: "'a option \<Rightarrow> bool" where
  "IsSet f = (f \<noteq> None)"

definition flagValue :: "'a \<Rightarrow> 'a option \<Rightarrow> 'a" where
  "flagValue dflt f = (case f of None \<Rightarrow> dflt | Some v \<Rightarrow> v)"

definition Bool_ephemeral :: "Config \<Rightarrow> Context \<Rightarrow> bool" where
  "Bool_ephemeral cfg c = flagValue (Ephemeral cfg) (ephemeral c)"

definition String_filename :: "Config \<Rightarrow> Context \<Rightarrow> string" where
  "String_filename cfg c = flagValue (DatabaseFilePath cfg) (filename c)"

definition Int_port :: "Config \<Rightarrow> Context \<Rightarrow> int" where
  "Int_port cfg c = flagValue (DefaultFrontendPort cfg) (port c)"

definition String_log_format :: "Context \<Rightarrow> string" where
  "String_log_format c = flagValue ''json'' (log_format c)"

definition StringSlice_namespace :: "Context \<Rightarrow> string list" where
  "StringSlice_namespace c = flagValue [] (namespace c)"

definition StringSlice_searchAttrKey :: "Context \<Rightarrow> string list" where
  "StringSlice_searchAttrKey c = flagValue [] (search_attributes_key c)"

definition StringSlice_searchAttrType :: "Context \<Rightarrow> string list" where
  "StringSlice_searchAttrType c = flagValue [] (search_attributes_type c)"

section \<open>The search-attribute parser (lines 168-178)\<close>

text \<open>
  \<^verbatim>\<open>enums.IndexedValueType\<close> is an \<^verbatim>\<open>int32\<close>; the table
  \<^verbatim>\<open>enums.IndexedValueType_value\<close>, from name to number, belongs to the Temporal API
  package and is a parameter \<open>tv\<close> of the parser.
\<close>

type_synonym IndexedValueType = "32 word"

type_synonym SearchAttributes = "string \<rightharpoonup> IndexedValueType"

definition invalid_type_message :: "string \<Rightarrow> string" where
  "invalid_type_message t =
     ''the type: '' @ t @ '' is not a valid type for a search attribute''"

text \<open>
  The loop \<^verbatim>\<open>for i, key := range keys\<close>: the keys still to visit, the index \<open>i\<close>
  of the next one and the map built so far. \<^verbatim>\<open>types[i]\<close> panics when \<open>i\<close> is not
  below \<^verbatim>\<open>len(types)\<close>. The function returns the pair \<^verbatim>\<open>(map, error)\<close>, with
  \<open>None\<close> for \<^verbatim>\<open>nil\<close> on either side.
\<close>

fun parseSearchAttributes_loop ::
  "(string \<rightharpoonup> IndexedValueType) \<Rightarrow> string list \<Rightarrow> string list \<Rightarrow> nat \<Rightarrow> SearchAttributes
   \<Rightarrow> (SearchAttributes option \<times> error option) go" where
  "parseSearchAttributes_loop tv [] types i searchAttributes =
     Return (Some searchAttributes, None)"
| "parseSearchAttributes_loop tv (key # keys) types i searchAttributes =
     (if i < length types then
        (case tv (types ! i) of
           None \<Rightarrow> Return (None, Some (Err (invalid_type_message (types ! i))))
         | Some t \<Rightarrow> parseSearchAttributes_loop tv keys types (Suc i) (searchAttributes(key \<mapsto> t)))
      else Panic (IndexOutOfRange i (length types)))"

definition parseSearchAttributes ::
  "(string \<rightharpoonup> IndexedValueType) \<Rightarrow> string list \<Rightarrow> string list
   \<Rightarrow> (SearchAttributes option \<times> error option) go" where
  "parseSearchAttributes tv keys types = parseSearchAttributes_loop tv keys types 0 Map.empty"

section \<open>Validation (lines 102-118 and 180-188)\<close>

text \<open>
  \<^verbatim>\<open>fmt.Sprintf\<close> renders a \<^verbatim>\<open>%q\<close> argument as a Go-quoted string. The quoting
  function belongs to Go's standard library and is the parameter \<open>q\<close>.
\<close>

definition searchAttributesValid :: "(string \<Rightarrow> string) \<Rightarrow> Context \<Rightarrow> error option" where
  "searchAttributesValid q c =
     (if (IsSet (search_attributes_type c) \<or> IsSet (search_attributes_key c))
         \<and> \<not> (IsSet (search_attributes_type c) \<and> IsSet (search_attributes_key c))
      then Some (Exit (''ERROR: both '' @ q searchAttrType @ '' and '' @ q searchAttrKey
                       @ '' must be set at the same time, or omitted completely'') 1)
      else if IsSet (search_attributes_type c) \<and> IsSet (search_attributes_key c)
              \<and> length (StringSlice_searchAttrType c) \<noteq> length (StringSlice_searchAttrKey c)
      then Some (Exit (''ERROR: number of search attributes (type/key) in '' @ q searchAttrType
                       @ '' and '' @ q searchAttrKey @ '' must be the same'') 1)
      else None)"

definition Before :: "(string \<Rightarrow> string) \<Rightarrow> Context \<Rightarrow> error option" where
  "Before q c =
     (if length (Args c) > 0 then
        Some (Exit ''ERROR: start command doesn't support arguments.'' 1)
      else if IsSet (ephemeral c) \<and> IsSet (filename c) then
        Some (Exit (''ERROR: only one of '' @ q ephemeralFlag @ '' or '' @ q dbPathFlag
                    @ '' flags may be passed at a time'') 1)
      else (case searchAttributesValid q c of
              Some err \<Rightarrow> Some err
            | None \<Rightarrow>
               (if String_log_format c = ''json'' \<or> String_log_format c = ''pretty'' then None
                else Some (Exit (''bad value '' @ q (String_log_format c) @ '' passed for flag ''
                                 @ q logFormatFlag) 1))))"

subsection \<open>The five rules, each on its own\<close>

text \<open>
  Section 4.1 of the specification lists the rules of the validator as independent
  checks. They are written down here one by one, each with the condition under which an
  input violates it and the error the code reports for it, so that \<open>Before\<close> can be
  compared with "the error of the first violated rule in the fixed order".
\<close>

datatype spec_rule =
    NoPositionalArguments
  | EphemeralOrFilename
  | SearchAttributesPaired
  | SearchAttributesSameLength
  | LogFormatKnown

fun spec_violates :: "spec_rule \<Rightarrow> Context \<Rightarrow> bool" where
  "spec_violates NoPositionalArguments c = (Args c \<noteq> [])"
| "spec_violates EphemeralOrFilename c = (ephemeral c \<noteq> None \<and> filename c \<noteq> None)"
| "spec_violates SearchAttributesPaired c =
     ((search_attributes_key c = None) \<noteq> (search_attributes_type c = None))"
| "spec_violates SearchAttributesSameLength c =
     (case (search_attributes_key c, search_attributes_type c) of
        (Some ks, Some ts) \<Rightarrow> length ks \<noteq> length ts
      | _ \<Rightarrow> False)"
| "spec_violates LogFormatKnown c =
     (String_log_format c \<noteq> ''json'' \<and> String_log_format c \<noteq> ''pretty'')"

fun spec_rule_error :: "(string \<Rightarrow> string) \<Rightarrow> Context \<Rightarrow> spec_rule \<Rightarrow> error" where
  "spec_rule_error q c NoPositionalArguments =
     Exit ''ERROR: start command doesn't support arguments.'' 1"
| "spec_rule_error q c EphemeralOrFilename =
     Exit (''ERROR: only one of '' @ q ephemeralFlag @ '' or '' @ q dbPathFlag
           @ '' flags may be passed at a time'') 1"
| "spec_rule_error q c SearchAttributesPaired =
     Exit (''ERROR: both '' @ q searchAttrType @ '' and '' @ q searchAttrKey
           @ '' must be set at the same time, or omitted completely'') 1"
| "spec_rule_error q c SearchAttributesSameLength =
     Exit (''ERROR: number of search attributes (type/key) in '' @ q searchAttrType
           @ '' and '' @ q searchAttrKey @ '' must be the same'') 1"
| "spec_rule_error q c LogFormatKnown =
     Exit (''bad value '' @ q (String_log_format c) @ '' passed for flag '' @ q logFormatFlag) 1"

definition spec_check_order :: "spec_rule list" where
  "spec_check_order =
     [NoPositionalArguments, EphemeralOrFilename, SearchAttributesPaired,
      SearchAttributesSameLength, LogFormatKnown]"

definition spec_first_failure :: "(string \<Rightarrow> string) \<Rightarrow> Context \<Rightarrow> error option" where
  "spec_first_failure q c =
     map_option (spec_rule_error q c) (find (\<lambda>r. spec_violates r c) spec_check_order)"

section \<open>Option composition and server start (lines 119-161)\<close>

text \<open>
  The directives of package \<^verbatim>\<open>temporalite\<close> are constructors; \<open>'l\<close> is the type of
  the zap logger. \<^verbatim>\<open>temporal.InterruptOn(temporal.InterruptCh())\<close> is the one upstream
  option that line 125 passes.
\<close>

datatype upstream_option = InterruptOn_InterruptCh

datatype 'l logger = NewZapLogger 'l

datatype 'l ServerOption =
    WithFrontendPort int
  | WithDatabaseFilePath string
  | WithNamespaces "string list"
  | WithUpstreamOptions "upstream_option list"
  | WithPersistenceDisabled
  | WithSearchAttributes "SearchAttributes option"
  | WithLogger "'l logger"

text \<open>The logger configuration of lines 139-144.\<close>

datatype level_encoder = CapitalColorLevelEncoder

datatype zap_level = ErrorLevel

datatype zap_option = WithCaller bool | AddStacktrace zap_level

text \<open>
  The collaborators outside \<^verbatim>\<open>main.go\<close>. \<open>Build\<close> is \<^verbatim>\<open>lcfg.Build\<close> on the development
  configuration with the given level encoder, \<open>NewServer\<close> is \<^verbatim>\<open>temporalite.NewServer\<close>
  and \<open>Start\<close> is the server's \<^verbatim>\<open>Start\<close> method. A failure is \<open>Inl\<close> of the error's
  text; these errors carry no exit code. \<open>Start\<close> blocks while the server runs: it
  hands back \<^verbatim>\<open>nil\<close> or an error when the server stops, or never returns.
\<close>

datatype start_result = Start_returns "string option" | Start_blocks

record ('l, 's) env =
  Build :: "level_encoder \<Rightarrow> zap_option list \<Rightarrow> string + 'l"
  NewServer :: "'l ServerOption list \<Rightarrow> string + 's"
  Start :: "'s \<Rightarrow> start_result"

text \<open>
  \<open>Action\<close> is modelled with the calls it makes, in order, next to its result, so that
  statements about what was called and with which option list can be made.
\<close>

datatype 'l event =
    Call_parseSearchAttributes "string list" "string list"
  | Call_Build
  | Call_NewServer "'l ServerOption list"
  | Call_Start

datatype result = Returned "error option" | Panicked runtime_error | Blocked

text \<open>Lines 152-160: construct the server from \<open>opts\<close> and start it.\<close>

definition Action_serve ::
  "('l, 's) env \<Rightarrow> 'l event list \<Rightarrow> 'l ServerOption list \<Rightarrow> 'l event list \<times> result" where
  "Action_serve env tr opts =
     (case NewServer env opts of
        Inl err \<Rightarrow> (tr @ [Call_NewServer opts], Returned (Some (Err err)))
      | Inr s \<Rightarrow>
         (case Start env s of
            Start_blocks \<Rightarrow> (tr @ [Call_NewServer opts, Call_Start], Blocked)
          | Start_returns (Some err) \<Rightarrow>
              (tr @ [Call_NewServer opts, Call_Start],
               Returned (Some (Exit (''Unable to start server. Error: '' @ err) 1)))
          | Start_returns None \<Rightarrow>
              (tr @ [Call_NewServer opts, Call_Start],
               Returned (Some (Exit ''All services are stopped.'' 0)))))"

text \<open>Lines 138-150: the logger override for the pretty format, then lines 152-160.\<close>

definition Action_logger ::
  "('l, 's) env \<Rightarrow> Context \<Rightarrow> 'l event list \<Rightarrow> 'l ServerOption list
   \<Rightarrow> 'l event list \<times> result" where
  "Action_logger env c tr opts =
     (if String_log_format c = ''pretty'' then
        (case Build env CapitalColorLevelEncoder [WithCaller False, AddStacktrace ErrorLevel] of
           Inl err \<Rightarrow> (tr @ [Call_Build], Returned (Some (Err err)))
         | Inr l \<Rightarrow> Action_serve env (tr @ [Call_Build]) (opts @ [WithLogger (NewZapLogger l)]))
      else Action_serve env tr opts)"

text \<open>Lines 119-137, continued by the two parts above.\<close>

definition Action ::
  "(string \<rightharpoonup> IndexedValueType) \<Rightarrow> Config \<Rightarrow> ('l, 's) env \<Rightarrow> Context
   \<Rightarrow> 'l event list \<times> result" where
  "Action tv cfg env c =
     (let opts = [WithFrontendPort (Int_port cfg c),
                  WithDatabaseFilePath (String_filename cfg c),
                  WithNamespaces (StringSlice_namespace c),
                  WithUpstreamOptions [InterruptOn_InterruptCh]];
          opts = (if Bool_ephemeral cfg c then opts @ [WithPersistenceDisabled] else opts)
      in if IsSet (search_attributes_type c) \<and> IsSet (search_attributes_key c) then
           (case parseSearchAttributes tv (StringSlice_searchAttrKey c)
                   (StringSlice_searchAttrType c) of
              Panic p \<Rightarrow>
                ([Call_parseSearchAttributes (StringSlice_searchAttrKey c)
                    (StringSlice_searchAttrType c)], Panicked p)
            | Return (sa, Some err) \<Rightarrow>
                ([Call_parseSearchAttributes (StringSlice_searchAttrKey c)
                    (StringSlice_searchAttrType c)], Returned (Some err))
            | Return (sa, None) \<Rightarrow>
                Action_logger env c
                  [Call_parseSearchAttributes (StringSlice_searchAttrKey c)
                     (StringSlice_searchAttrType c)]
                  (opts @ [WithSearchAttributes sa]))
         else Action_logger env c [] opts)"

section \<open>The driver (lines 45-49)\<close>

text \<open>
  Modelled from the spec: \<^verbatim>\<open>App.Run\<close> of the command-line library is not part of
  \<^verbatim>\<open>main.go\<close>. Following sections 2 and 4.4 of the specification, for the \<^verbatim>\<open>start\<close>
  command it invokes the validator (\<^verbatim>\<open>Before\<close>) first and, only when that returns
  \<^verbatim>\<open>nil\<close>, the \<^verbatim>\<open>Action\<close>; the error of whichever failed is the result.
\<close>

definition Run ::
  "(string \<Rightarrow> string) \<Rightarrow> (string \<rightharpoonup> IndexedValueType) \<Rightarrow> Config \<Rightarrow> ('l, 's) env \<Rightarrow> Context
   \<Rightarrow> 'l event list \<times> result" where
  "Run q tv cfg env c =
     (case Before q c of
        Some err \<Rightarrow> ([], Returned (Some err))
      | None \<Rightarrow> Action tv cfg env c)"

text \<open>
  How the process ends: with an exit status and the message written to the error stream,
  by an unrecovered panic, or not at all while the server keeps running.
\<close>

datatype process = Exited int string | Crashed runtime_error | Running

text \<open>
  Modelled from the spec: the mapping from the error to the exit status is done by the
  library's exit-code handler and by \<^verbatim>\<open>log.Fatal\<close>, neither part of \<^verbatim>\<open>main.go\<close>.
  Following sections 4.4, 6 and 7 of the specification, an error built by
  \<^verbatim>\<open>cli.Exit(message, code)\<close> ends the process with that code and message; any other
  error reaches \<^verbatim>\<open>goLog.Fatal\<close> of line 47, which prints it and exits with status 1;
  a \<^verbatim>\<open>nil\<close> error lets \<^verbatim>\<open>main\<close> return, which is status 0 with no message.
\<close>

definition main ::
  "(string \<Rightarrow> string) \<Rightarrow> (string \<rightharpoonup> IndexedValueType) \<Rightarrow> Config \<Rightarrow> ('l, 's) env \<Rightarrow> Context
   \<Rightarrow> process" where
  "main q tv cfg env c =
     (case snd (Run q tv cfg env c) of
        Blocked \<Rightarrow> Running
      | Panicked p \<Rightarrow> Crashed p
      | Returned None \<Rightarrow> Exited 0 []
      | Returned (Some (Exit msg code)) \<Rightarrow> Exited code msg
      | Returned (Some (Err msg)) \<Rightarrow> Exited 1 msg)"

section \<open>Concrete parameters for the examples\<close>

text \<open>
  Modelled from the spec: the table \<^verbatim>\<open>enums.IndexedValueType_value\<close> is not part of
  \<^verbatim>\<open>main.go\<close>. Section 3 of the specification lists the value types Text, Keyword, Int,
  Double, Bool, Datetime and KeywordList; they are numbered in that order. Every general
  theorem below holds for an arbitrary table; this one instantiates the examples.
\<close>

definition IndexedValueType_value :: "string \<rightharpoonup> IndexedValueType" where
  "IndexedValueType_value =
     [''Text'' \<mapsto> 1, ''Keyword'' \<mapsto> 2, ''Int'' \<mapsto> 3, ''Double'' \<mapsto> 4, ''Bool'' \<mapsto> 5,
      ''Datetime'' \<mapsto> 6, ''KeywordList'' \<mapsto> 7]"

text \<open>
  The \<^verbatim>\<open>%q\<close> rendering of a string of printable ASCII characters without double quote
  or backslash: the string between two double quotes. It instantiates \<open>q\<close> in the
  examples, whose strings are all of that kind.
\<close>

definition quote_plain :: "string \<Rightarrow> string" where
  "quote_plain s = CHR 0x22 # s @ [CHR 0x22]"

text \<open>Defaults and collaborators for the examples: every call succeeds, the server stops cleanly.\<close>

definition example_cfg :: Config where
  "example_cfg = \<lparr>Ephemeral = False, DatabaseFilePath = ''default.db'', DefaultFrontendPort = 7233\<rparr>"

definition example_env :: "(unit, unit) env" where
  "example_env = \<lparr>Build = (\<lambda>enc zopts. Inr ()), NewServer = (\<lambda>opts. Inr ()),
                  Start = (\<lambda>s. Start_returns None)\<rparr>"

text \<open>The context of \<^verbatim>\<open>start\<close> with no argument and no flag.\<close>

definition no_flags :: Context where
  "no_flags = \<lparr>Args = [], search_attributes_key = None, search_attributes_type = None,
               ephemeral = None, filename = None, port = None, log_format = None,
               namespace = None\<rparr>"

section \<open>Facts about the parser loop\<close>

text \<open>
  The loop is started at index \<open>0\<close> with the empty map; the facts are stated for any
  index and any map, as the induction needs them.
\<close>

lemma loop_success:
  "i + length ks \<le> length types \<Longrightarrow> \<forall>j<length ks. tv (types ! (i + j)) \<noteq> None \<Longrightarrow>
   \<exists>m'. parseSearchAttributes_loop tv ks types i m = Return (Some m', None)
        \<and> dom m' = dom m \<union> set ks
        \<and> (\<forall>k. k \<notin> set ks \<longrightarrow> m' k = m k)
        \<and> (\<forall>j<length ks. ks ! j \<notin> set (drop (Suc j) ks) \<longrightarrow> m' (ks ! j) = tv (types ! (i + j)))"
proof (induction ks arbitrary: i m)
  case Nil
  then show ?case by simp
next
  case (Cons key ks)
  from Cons.prems have lt: "i < length types" by simp
  from Cons.prems(2) have "tv (types ! (i + 0)) \<noteq> None" by blast
  then obtain t where t: "tv (types ! i) = Some t" by auto
  have len: "Suc i + length ks \<le> length types" using Cons.prems(1) by simp
  have ok: "\<forall>j<length ks. tv (types ! (Suc i + j)) \<noteq> None"
  proof (intro allI impI)
    fix j assume "j < length ks"
    then have "Suc j < length (key # ks)" by simp
    with Cons.prems(2) have "tv (types ! (i + Suc j)) \<noteq> None" by blast
    then show "tv (types ! (Suc i + j)) \<noteq> None" by simp
  qed
  from Cons.IH [OF len ok, of "m(key \<mapsto> t)"]
  obtain m' where r: "parseSearchAttributes_loop tv ks types (Suc i) (m(key \<mapsto> t)) = Return (Some m', None)"
    and d: "dom m' = dom (m(key \<mapsto> t)) \<union> set ks"
    and u: "\<forall>k. k \<notin> set ks \<longrightarrow> m' k = (m(key \<mapsto> t)) k"
    and l: "\<forall>j<length ks. ks ! j \<notin> set (drop (Suc j) ks) \<longrightarrow> m' (ks ! j) = tv (types ! (Suc i + j))"
    by blast
  have "parseSearchAttributes_loop tv (key # ks) types i m = Return (Some m', None)"
    using lt t r by simp
  moreover have "dom m' = dom m \<union> set (key # ks)" using d by auto
  moreover have "\<forall>k. k \<notin> set (key # ks) \<longrightarrow> m' k = m k" using u by auto
  moreover have "\<forall>j<length (key # ks). (key # ks) ! j \<notin> set (drop (Suc j) (key # ks))
      \<longrightarrow> m' ((key # ks) ! j) = tv (types ! (i + j))"
  proof (intro allI impI)
    fix j assume j: "j < length (key # ks)" and nd: "(key # ks) ! j \<notin> set (drop (Suc j) (key # ks))"
    show "m' ((key # ks) ! j) = tv (types ! (i + j))"
    proof (cases j)
      case 0
      with nd have "key \<notin> set ks" by simp
      with u t 0 show ?thesis by simp
    next
      case (Suc j')
      with j nd l show ?thesis by simp
    qed
  qed
  ultimately show ?case by blast
qed

lemma loop_no_panic:
  "i + length ks \<le> length types \<Longrightarrow> \<exists>r. parseSearchAttributes_loop tv ks types i m = Return r"
  by (induction ks arbitrary: i m) (auto split: option.splits)

lemma loop_first_bad:
  "j < length ks \<Longrightarrow> i + j < length types \<Longrightarrow> tv (types ! (i + j)) = None \<Longrightarrow>
   \<forall>k<j. tv (types ! (i + k)) \<noteq> None \<Longrightarrow>
   parseSearchAttributes_loop tv ks types i m = Return (None, Some (Err (invalid_type_message (types ! (i + j)))))"
proof (induction ks arbitrary: i j m)
  case Nil
  then show ?case by simp
next
  case (Cons key ks)
  show ?case
  proof (cases j)
    case 0
    with Cons.prems show ?thesis by simp
  next
    case (Suc j')
    from Cons.prems Suc have lt: "i < length types" by simp
    from Cons.prems(4) Suc have "tv (types ! (i + 0)) \<noteq> None" by blast
    then obtain t where t: "tv (types ! i) = Some t" by auto
    have a: "j' < length ks" using Cons.prems(1) Suc by simp
    have b: "Suc i + j' < length types" using Cons.prems(2) Suc by simp
    have c: "tv (types ! (Suc i + j')) = None" using Cons.prems(3) Suc by simp
    have d: "\<forall>k<j'. tv (types ! (Suc i + k)) \<noteq> None"
    proof (intro allI impI)
      fix k assume "k < j'"
      then have "Suc k < j" using Suc by simp
      with Cons.prems(4) have "tv (types ! (i + Suc k)) \<noteq> None" by blast
      then show "tv (types ! (Suc i + k)) \<noteq> None" by simp
    qed
    have "parseSearchAttributes_loop tv (key # ks) types i m
            = parseSearchAttributes_loop tv ks types (Suc i) (m(key \<mapsto> t))"
      using lt t by simp
    also have "\<dots> = Return (None, Some (Err (invalid_type_message (types ! (Suc i + j')))))"
      by (rule Cons.IH [OF a b c d])
    finally show ?thesis using Suc by simp
  qed
qed

text \<open>
  The parser fails at the first unrecognized type token that stands at the position of a
  key, whatever the lengths of the two lists.
\<close>

lemma parse_first_unrecognized:
  assumes "j < length keys" and "j < length types" and "tv (types ! j) = None"
    and "\<forall>i<j. tv (types ! i) \<noteq> None"
  shows "parseSearchAttributes tv keys types
         = Return (None, Some (Err (''the type: '' @ types ! j
                                    @ '' is not a valid type for a search attribute'')))"
proof -
  have a: "0 + j < length types" using assms(2) by simp
  have b: "tv (types ! (0 + j)) = None" using assms(3) by simp
  have c: "\<forall>k<j. tv (types ! (0 + k)) \<noteq> None" using assms(4) by simp
  from loop_first_bad [OF assms(1) a b c, of Map.empty] show ?thesis
    by (simp add: parseSearchAttributes_def invalid_type_message_def)
qed

lemma loop_error_is_Err:
  "parseSearchAttributes_loop tv ks ts i m = Return (sa, Some e) \<Longrightarrow> \<exists>t. e = Err (invalid_type_message t) \<and> sa = None"
  by (induction ks arbitrary: i m) (auto split: if_splits option.splits)

text \<open>
  The bound on the type list is sharp: with fewer types than keys, all of them recognized,
  the read just past the end of the type list panics.
\<close>

lemma loop_panics:
  "length types < i + length ks \<Longrightarrow> i \<le> length types \<Longrightarrow> \<forall>t\<in>set types. tv t \<noteq> None \<Longrightarrow>
   parseSearchAttributes_loop tv ks types i m = Panic (IndexOutOfRange (length types) (length types))"
proof (induction ks arbitrary: i m)
  case Nil
  then show ?case by simp
next
  case (Cons key ks)
  show ?case
  proof (cases "i < length types")
    case True
    with Cons.prems(3) obtain t where "tv (types ! i) = Some t" by force
    with True Cons show ?thesis by simp
  next
    case False
    with Cons.prems show ?thesis by simp
  qed
qed

section \<open>Facts about validation\<close>

lemma Before_exit_1: "Before q c = Some e \<Longrightarrow> \<exists>m. e = Exit m 1"
  by (auto simp: Before_def searchAttributesValid_def split: if_splits option.splits)

lemma Before_None_lengths:
  assumes "Before q c = None" and "IsSet (search_attributes_type c)" and "IsSet (search_attributes_key c)"
  shows "length (StringSlice_searchAttrKey c) = length (StringSlice_searchAttrType c)"
  using assms by (auto simp: Before_def searchAttributesValid_def split: if_splits option.splits)

section \<open>Facts about the calls of Action\<close>

lemma Action_serve_snd: "snd (Action_serve env tr opts) = snd (Action_serve env [] opts)"
  by (simp add: Action_serve_def split: sum.splits start_result.splits option.splits)

lemma Action_serve_NewServer:
  "Call_NewServer o' \<in> set (fst (Action_serve env tr opts))
   \<longleftrightarrow> Call_NewServer o' \<in> set tr \<or> o' = opts"
  by (auto simp: Action_serve_def split: sum.splits start_result.splits option.splits)

lemma Action_serve_parse:
  "Call_parseSearchAttributes ks ts \<in> set (fst (Action_serve env tr opts))
   \<longleftrightarrow> Call_parseSearchAttributes ks ts \<in> set tr"
  by (auto simp: Action_serve_def split: sum.splits start_result.splits option.splits)

lemma Action_serve_no_panic: "snd (Action_serve env tr opts) \<noteq> Panicked p"
  by (auto simp: Action_serve_def split: sum.splits start_result.splits option.splits)

lemma Action_logger_NewServer:
  assumes "Call_NewServer o' \<in> set (fst (Action_logger env c tr opts))"
    and "\<forall>x. Call_NewServer x \<notin> set tr"
  shows "if String_log_format c = ''pretty''
         then \<exists>l. Build env CapitalColorLevelEncoder [WithCaller False, AddStacktrace ErrorLevel] = Inr l
                  \<and> o' = opts @ [WithLogger (NewZapLogger l)]
         else o' = opts"
  using assms
  by (auto simp: Action_logger_def Action_serve_NewServer split: if_splits sum.splits)

lemma Action_logger_snd:
  assumes "Call_NewServer o' \<in> set (fst (Action_logger env c tr opts))"
    and "\<forall>x. Call_NewServer x \<notin> set tr"
  shows "snd (Action_logger env c tr opts) = snd (Action_serve env [] o')"
  using assms Action_serve_snd [of env "tr @ [Call_Build]"] Action_serve_snd [of env tr]
  by (auto simp: Action_logger_def Action_serve_NewServer split: if_splits sum.splits)

lemma Action_logger_Build:
  assumes "Call_Build \<in> set (fst (Action_logger env c tr opts))" and "Call_Build \<notin> set tr"
    and "Build env CapitalColorLevelEncoder [WithCaller False, AddStacktrace ErrorLevel] = Inl m"
  shows "snd (Action_logger env c tr opts) = Returned (Some (Err m))"
  using assms
  by (auto simp: Action_logger_def Action_serve_def split: if_splits sum.splits start_result.splits option.splits)

lemma Action_logger_parse:
  "Call_parseSearchAttributes ks ts \<in> set (fst (Action_logger env c tr opts))
   \<longleftrightarrow> Call_parseSearchAttributes ks ts \<in> set tr"
  by (auto simp: Action_logger_def Action_serve_parse split: if_splits sum.splits)

lemma Action_logger_no_panic: "snd (Action_logger env c tr opts) \<noteq> Panicked p"
  by (auto simp: Action_logger_def Action_serve_no_panic split: if_splits sum.splits)

lemma Action_composed:
  assumes "Call_NewServer opts \<in> set (fst (Action tv cfg env c))"
  shows "\<exists>attrs lg.
      opts = [WithFrontendPort (Int_port cfg c),
                  WithDatabaseFilePath (String_filename cfg c),
                  WithNamespaces (StringSlice_namespace c),
                  WithUpstreamOptions [InterruptOn_InterruptCh]]
             @ (if Bool_ephemeral cfg c then [WithPersistenceDisabled] else []) @ attrs @ lg
      \<and> (if IsSet (search_attributes_type c) \<and> IsSet (search_attributes_key c)
          then \<exists>sa. attrs = [WithSearchAttributes sa]
                 \<and> parseSearchAttributes tv (StringSlice_searchAttrKey c)
                      (StringSlice_searchAttrType c) = Return (sa, None)
          else attrs = [])
      \<and> (if String_log_format c = ''pretty''
          then \<exists>l. lg = [WithLogger (NewZapLogger l)]
                 \<and> Build env CapitalColorLevelEncoder [WithCaller False, AddStacktrace ErrorLevel] = Inr l
          else lg = [])"
proof (cases "IsSet (search_attributes_type c) \<and> IsSet (search_attributes_key c)")
  case False
  with assms have "Call_NewServer opts \<in> set (fst (Action_logger env c []
      ([WithFrontendPort (Int_port cfg c),
                  WithDatabaseFilePath (String_filename cfg c),
                  WithNamespaces (StringSlice_namespace c),
                  WithUpstreamOptions [InterruptOn_InterruptCh]]
             @ (if Bool_ephemeral cfg c then [WithPersistenceDisabled] else []))))"
    by (auto simp: Action_def Let_def split: if_splits)
  from Action_logger_NewServer [OF this] False show ?thesis
    by (auto split: if_splits)
next
  case True
  with assms obtain sa where
    p: "parseSearchAttributes tv (StringSlice_searchAttrKey c) (StringSlice_searchAttrType c)
          = Return (sa, None)"
    and "Call_NewServer opts \<in> set (fst (Action_logger env c
        [Call_parseSearchAttributes (StringSlice_searchAttrKey c) (StringSlice_searchAttrType c)]
      ([WithFrontendPort (Int_port cfg c),
                  WithDatabaseFilePath (String_filename cfg c),
                  WithNamespaces (StringSlice_namespace c),
                  WithUpstreamOptions [InterruptOn_InterruptCh]]
             @ (if Bool_ephemeral cfg c then [WithPersistenceDisabled] else [])
             @ [WithSearchAttributes sa])))"
    by (auto simp: Action_def Let_def split: if_splits go.splits option.splits prod.splits)
  from Action_logger_NewServer [OF this(2)] True p show ?thesis
    by (auto split: if_splits)
qed

lemma Action_snd:
  assumes "Call_NewServer o' \<in> set (fst (Action tv cfg env c))"
  shows "snd (Action tv cfg env c) = snd (Action_serve env [] o')"
  using assms
  by (auto simp: Action_def Let_def  split: if_splits go.splits option.splits prod.splits
           intro!: Action_logger_snd)

lemma Action_Build:
  assumes "Call_Build \<in> set (fst (Action tv cfg env c))"
    and "Build env CapitalColorLevelEncoder [WithCaller False, AddStacktrace ErrorLevel] = Inl m"
  shows "snd (Action tv cfg env c) = Returned (Some (Err m))"
  using assms
  by (auto simp: Action_def Let_def split: if_splits go.splits option.splits prod.splits
           intro!: Action_logger_Build)

lemma Action_parse_called:
  "Call_parseSearchAttributes ks ts \<in> set (fst (Action tv cfg env c)) \<longleftrightarrow>
     IsSet (search_attributes_type c) \<and> IsSet (search_attributes_key c)
     \<and> ks = StringSlice_searchAttrKey c \<and> ts = StringSlice_searchAttrType c"
  by (auto simp: Action_def Let_def Action_logger_parse split: if_splits go.splits option.splits prod.splits)

lemma Action_parse_error:
  assumes "IsSet (search_attributes_type c) \<and> IsSet (search_attributes_key c)"
    and "parseSearchAttributes tv (StringSlice_searchAttrKey c) (StringSlice_searchAttrType c) = Return (sa, Some e)"
  shows "snd (Action tv cfg env c) = Returned (Some e)"
  using assms by (simp add: Action_def Let_def)

section \<open>Facts about the result of Action and of the run\<close>

lemma parse_error_is_Err:
  "parseSearchAttributes tv ks ts = Return (sa, Some e) \<Longrightarrow> \<exists>t. e = Err t"
  using loop_error_is_Err [of tv ks ts 0 Map.empty sa e] by (auto simp: parseSearchAttributes_def)

lemma Action_no_panic:
  assumes "Before q c = None"
  shows "snd (Action tv cfg env c) \<noteq> Panicked p"
proof (cases "IsSet (search_attributes_type c) \<and> IsSet (search_attributes_key c)")
  case False
  then show ?thesis
    by (auto simp: Action_def Let_def Action_logger_no_panic)
next
  case True
  with Before_None_lengths [OF assms]
  have "0 + length (StringSlice_searchAttrKey c) \<le> length (StringSlice_searchAttrType c)"
    by simp
  from loop_no_panic [OF this, of tv Map.empty]
  obtain r where "parseSearchAttributes tv (StringSlice_searchAttrKey c)
      (StringSlice_searchAttrType c) = Return r"
    by (auto simp: parseSearchAttributes_def)
  with True show ?thesis
    by (cases r) (auto simp: Action_def Let_def Action_logger_no_panic split: option.splits)
qed

lemma Action_serve_result:
  assumes "snd (Action_serve env tr opts) = Returned r"
  shows "(\<exists>t. r = Some (Err t)) \<or> (\<exists>t. r = Some (Exit t 1))
       \<or> (r = Some (Exit ''All services are stopped.'' 0)
           \<and> (\<exists>s. NewServer env opts = Inr s \<and> Start env s = Start_returns None))"
  using assms
  by (auto simp: Action_serve_def split: sum.splits start_result.splits option.splits)

lemma Action_logger_result:
  assumes "snd (Action_logger env c tr opts) = Returned r"
  shows "(\<exists>t. r = Some (Err t)) \<or> (\<exists>t. r = Some (Exit t 1))
       \<or> (r = Some (Exit ''All services are stopped.'' 0)
           \<and> (\<exists>o' s. Call_NewServer o' \<in> set (fst (Action_logger env c tr opts))
                  \<and> NewServer env o' = Inr s \<and> Start env s = Start_returns None))"
proof (cases "String_log_format c = ''pretty''")
  case False
  with assms have "snd (Action_serve env tr opts) = Returned r"
    by (simp add: Action_logger_def)
  from Action_serve_result [OF this] False show ?thesis
    by (auto simp: Action_logger_def Action_serve_NewServer)
next
  case True
  show ?thesis
  proof (cases "Build env CapitalColorLevelEncoder [WithCaller False, AddStacktrace ErrorLevel]")
    case (Inl t)
    with True assms show ?thesis by (auto simp: Action_logger_def)
  next
    case (Inr l)
    with True assms have "snd (Action_serve env (tr @ [Call_Build])
        (opts @ [WithLogger (NewZapLogger l)])) = Returned r"
      by (simp add: Action_logger_def)
    from Action_serve_result [OF this] True Inr show ?thesis
      by (auto simp: Action_logger_def Action_serve_NewServer)
  qed
qed

lemma Action_result:
  assumes "snd (Action tv cfg env c) = Returned r"
  shows "(\<exists>t. r = Some (Err t)) \<or> (\<exists>t. r = Some (Exit t 1))
       \<or> (r = Some (Exit ''All services are stopped.'' 0)
           \<and> (\<exists>o' s. Call_NewServer o' \<in> set (fst (Action tv cfg env c))
                  \<and> NewServer env o' = Inr s \<and> Start env s = Start_returns None))"
proof (cases "IsSet (search_attributes_type c) \<and> IsSet (search_attributes_key c)")
  case False
  with assms Action_logger_result [of env c "[]" _ r] show ?thesis
    by (auto simp: Action_def Let_def split: if_splits)
next
  case True
  show ?thesis
  proof (cases "parseSearchAttributes tv (StringSlice_searchAttrKey c)
      (StringSlice_searchAttrType c)")
    case (Panic p)
    with True assms show ?thesis by (simp add: Action_def Let_def)
  next
    case (Return pr)
    obtain sa eo where pr: "pr = (sa, eo)" by (cases pr)
    show ?thesis
    proof (cases eo)
      case (Some e)
      with Return pr parse_error_is_Err obtain t where "e = Err t" by blast
      with Some Return pr True assms show ?thesis by (auto simp: Action_def Let_def)
    next
      case None
      with Return pr True assms
        Action_logger_result [of env c
          "[Call_parseSearchAttributes (StringSlice_searchAttrKey c) (StringSlice_searchAttrType c)]"
          _ r]
      show ?thesis
        by (auto simp: Action_def Let_def split: if_splits)
    qed
  qed
qed

lemma Run_calls_Action:
  assumes "x \<in> set (fst (Run q tv cfg env c))"
  shows "Before q c = None \<and> Run q tv cfg env c = Action tv cfg env c"
  using assms by (cases "Before q c") (simp_all add: Run_def)

text \<open>The definitions a concrete run is evaluated with.\<close>

lemmas run_defs =
  main_def Run_def Before_def searchAttributesValid_def Action_def Action_logger_def
  Action_serve_def parseSearchAttributes_def IndexedValueType_value_def no_flags_def
  example_cfg_def example_env_def IsSet_def Int_port_def String_filename_def
  StringSlice_namespace_def StringSlice_searchAttrKey_def StringSlice_searchAttrType_def
  Bool_ephemeral_def String_log_format_def flagValue_def invalid_type_message_def

section \<open>The claims\<close>

subsection \<open>C1: the ephemeral and filename flags exclude each other\<close>

text \<open>
  C1, as stated: for every input in which both the ephemeral flag and the filename flag
  are explicitly set, validation fails with a message that names both flags. This fails
  on the code when the input also carries a positional argument: the check of line 103
  comes first and its message names neither flag. The input below is
  \<^verbatim>\<open>start --ephemeral --filename foo.db extra-arg\<close>.
\<close>

theorem conflict_message_counterexample:
  \<open>IsSet (ephemeral (no_flags\<lparr>Args := [''extra-arg''], ephemeral := Some True,
                               filename := Some ''foo.db''\<rparr>))
   \<and> IsSet (filename (no_flags\<lparr>Args := [''extra-arg''], ephemeral := Some True,
                                filename := Some ''foo.db''\<rparr>))
   \<and> Before quote_plain (no_flags\<lparr>Args := [''extra-arg''], ephemeral := Some True,
                                   filename := Some ''foo.db''\<rparr>)
       = Some (Exit ''ERROR: start command doesn't support arguments.'' 1)
   \<and> Before quote_plain (no_flags\<lparr>Args := [''extra-arg''], ephemeral := Some True,
                                   filename := Some ''foo.db''\<rparr>)
       \<noteq> Some (Exit ''ERROR: only one of "ephemeral" or "filename" flags may be passed at a time'' 1)\<close>
  by (simp add: Before_def IsSet_def no_flags_def)

text \<open>
  C1, amended: for every input in which both flags are explicitly set, whatever their
  values, validation fails with exit code 1, before any parsing or composition: the run
  makes no call. When the input has no positional argument the message is the one of
  line 107, which names both flags; when it has one, the message is the
  positional-argument message of line 104.
\<close>

theorem conflict_rejected:
  assumes "IsSet (ephemeral c)" and "IsSet (filename c)"
  shows "(\<exists>m. Before q c = Some (Exit m 1))
       \<and> fst (Run q tv cfg env c) = []
       \<and> (Args c = [] \<longrightarrow>
            Before q c = Some (Exit (''ERROR: only one of '' @ q ephemeralFlag @ '' or ''
                                     @ q dbPathFlag @ '' flags may be passed at a time'') 1))
       \<and> (Args c \<noteq> [] \<longrightarrow>
            Before q c = Some (Exit ''ERROR: start command doesn't support arguments.'' 1))"
  using assms by (simp add: Before_def Run_def)

text \<open>Scenario 2 of the specification, \<^verbatim>\<open>start --ephemeral --filename foo.db\<close>.\<close>

theorem conflict_rejected_witness:
  \<open>IsSet (ephemeral (no_flags\<lparr>ephemeral := Some True, filename := Some ''foo.db''\<rparr>))
   \<and> IsSet (filename (no_flags\<lparr>ephemeral := Some True, filename := Some ''foo.db''\<rparr>))
   \<and> Args (no_flags\<lparr>ephemeral := Some True, filename := Some ''foo.db''\<rparr>) = []
   \<and> Before quote_plain (no_flags\<lparr>ephemeral := Some True, filename := Some ''foo.db''\<rparr>)
       = Some (Exit ''ERROR: only one of "ephemeral" or "filename" flags may be passed at a time'' 1)
   \<and> fst (Run quote_plain IndexedValueType_value example_cfg example_env
            (no_flags\<lparr>ephemeral := Some True, filename := Some ''foo.db''\<rparr>)) = []\<close>
proof -
  let ?c = "no_flags\<lparr>ephemeral := Some True, filename := Some ''foo.db''\<rparr>"
  have e: "IsSet (ephemeral ?c)" and f: "IsSet (filename ?c)" and a: "Args ?c = []"
    by (simp_all add: IsSet_def no_flags_def)
  from conflict_rejected [OF e f, where q = quote_plain and tv = IndexedValueType_value
      and cfg = example_cfg and env = example_env] a e f
  show ?thesis
    by (simp add: quote_plain_def ephemeralFlag_def dbPathFlag_def)
qed

subsection \<open>C2: parsing recognized types\<close>

text \<open>
  C2: for every pair of equal-length key and type lists in which each type token is a
  name of the table, \<open>parseSearchAttributes\<close> returns a map and no error; the keys of the
  map are exactly the listed keys, and each key is mapped to the type listed at its last
  occurrence.
\<close>

theorem parse_succeeds_last_write_wins:
  assumes "length keys = length types" and "\<forall>t\<in>set types. tv t \<noteq> None"
  shows "\<exists>m. parseSearchAttributes tv keys types = Return (Some m, None)
           \<and> dom m = set keys
           \<and> (\<forall>i<length keys. keys ! i \<notin> set (drop (Suc i) keys)
                 \<longrightarrow> m (keys ! i) = tv (types ! i))"
proof -
  have len: "0 + length keys \<le> length types" using assms(1) by simp
  have ok: "\<forall>j<length keys. tv (types ! (0 + j)) \<noteq> None"
    using assms by (simp add: all_set_conv_all_nth)
  from loop_success [OF len ok, of Map.empty]
  obtain m where "parseSearchAttributes_loop tv keys types 0 Map.empty = Return (Some m, None)"
    and "dom m = dom (Map.empty :: SearchAttributes) \<union> set keys"
    and "\<forall>j<length keys. keys ! j \<notin> set (drop (Suc j) keys)
           \<longrightarrow> m (keys ! j) = tv (types ! (0 + j))"
    by blast
  then have "parseSearchAttributes tv keys types = Return (Some m, None) \<and> dom m = set keys
           \<and> (\<forall>i<length keys. keys ! i \<notin> set (drop (Suc i) keys)
                 \<longrightarrow> m (keys ! i) = tv (types ! i))"
    by (simp add: parseSearchAttributes_def)
  then show ?thesis by blast
qed

text \<open>Three pairs, the first key listed again at the end with another type.\<close>

theorem parse_succeeds_last_write_wins_witness:
  "length [''CustomID'', ''Owner'', ''CustomID''] = length [''Keyword'', ''Int'', ''Text'']
   \<and> IndexedValueType_value ''Keyword'' \<noteq> None \<and> IndexedValueType_value ''Int'' \<noteq> None
   \<and> IndexedValueType_value ''Text'' \<noteq> None
   \<and> (\<exists>m. parseSearchAttributes IndexedValueType_value [''CustomID'', ''Owner'', ''CustomID'']
              [''Keyword'', ''Int'', ''Text''] = Return (Some m, None)
          \<and> dom m = {''CustomID'', ''Owner''}
          \<and> m ''CustomID'' = Some 1 \<and> m ''Owner'' = Some 3)"
proof -
  have h1: "length [''CustomID'', ''Owner'', ''CustomID''] = length [''Keyword'', ''Int'', ''Text'']"
    by simp
  have h2: "\<forall>t\<in>set [''Keyword'', ''Int'', ''Text'']. IndexedValueType_value t \<noteq> None"
    by (simp add: IndexedValueType_value_def)
  from parse_succeeds_last_write_wins [OF h1 h2]
  obtain m where r: "parseSearchAttributes IndexedValueType_value [''CustomID'', ''Owner'', ''CustomID'']
              [''Keyword'', ''Int'', ''Text''] = Return (Some m, None)"
    and d: "dom m = set [''CustomID'', ''Owner'', ''CustomID'']"
    and l: "\<forall>i<length [''CustomID'', ''Owner'', ''CustomID''].
              [''CustomID'', ''Owner'', ''CustomID''] ! i
                \<notin> set (drop (Suc i) [''CustomID'', ''Owner'', ''CustomID''])
              \<longrightarrow> m ([''CustomID'', ''Owner'', ''CustomID''] ! i)
                  = IndexedValueType_value ([''Keyword'', ''Int'', ''Text''] ! i)"
    by blast
  from l [rule_format, of 2] have "m ''CustomID'' = Some 1"
    by (simp add: IndexedValueType_value_def)
  moreover from l [rule_format, of 1] have "m ''Owner'' = Some 3"
    by (simp add: IndexedValueType_value_def)
  moreover from d have "dom m = {''CustomID'', ''Owner''}" by auto
  ultimately show ?thesis using h1 h2 r by simp
qed

subsection \<open>C3: parsing an unrecognized type\<close>

text \<open>
  C3: for every pair of a key list and a type list of the same length, the lists the
  parser is specified for and the only ones that line 132 passes on after the check of
  line 184, in which at least one type token is not a name of the table,
  \<open>parseSearchAttributes\<close> fails at the first such token: it returns the \<^verbatim>\<open>nil\<close> map,
  no partial map, and the error of line 173, whose text carries that token.
\<close>

theorem parse_fails_at_first_unrecognized:
  assumes "length keys = length types" and "\<exists>t\<in>set types. tv t = None"
  shows "\<exists>j<length types.
           tv (types ! j) = None \<and> (\<forall>i<j. tv (types ! i) \<noteq> None)
           \<and> parseSearchAttributes tv keys types
               = Return (None, Some (Err (''the type: '' @ types ! j
                                          @ '' is not a valid type for a search attribute'')))"
proof -
  define P where "P j \<longleftrightarrow> j < length types \<and> tv (types ! j) = None" for j
  from assms(2) obtain k where "P k"
    by (auto simp: P_def in_set_conv_nth)
  define j where "j = (LEAST j. P j)"
  have Pj: "P j" unfolding j_def using \<open>P k\<close> by (rule LeastI)
  have least: "\<not> P i" if "i < j" for i
    using that unfolding j_def by (rule not_less_Least)
  from Pj have lt: "j < length types" and bad: "tv (types ! j) = None"
    by (simp_all add: P_def)
  have before: "\<forall>i<j. tv (types ! i) \<noteq> None"
  proof (intro allI impI)
    fix i assume "i < j"
    with least lt show "tv (types ! i) \<noteq> None" by (auto simp: P_def)
  qed
  from lt assms(1) have "j < length keys" by simp
  from parse_first_unrecognized [OF this lt bad before] lt bad before
  show ?thesis by blast
qed

text \<open>Three pairs; the second and the third type are unrecognized, the second is reported.\<close>

theorem parse_fails_at_first_unrecognized_witness:
  "length [''A'', ''B'', ''C''] = length [''Keyword'', ''keyword'', ''Bogus'']
   \<and> ''keyword'' \<in> set [''Keyword'', ''keyword'', ''Bogus'']
   \<and> IndexedValueType_value ''keyword'' = None
   \<and> IndexedValueType_value ''Bogus'' = None
   \<and> parseSearchAttributes IndexedValueType_value [''A'', ''B'', ''C'']
        [''Keyword'', ''keyword'', ''Bogus'']
       = Return (None, Some (Err ''the type: keyword is not a valid type for a search attribute''))"
proof -
  let ?types = "[''Keyword'', ''keyword'', ''Bogus'']"
  have h1: "length [''A'', ''B'', ''C''] = length ?types" by simp
  have k: "IndexedValueType_value ''keyword'' = None"
    and b: "IndexedValueType_value ''Bogus'' = None"
    and K: "IndexedValueType_value ''Keyword'' \<noteq> None"
    by (simp_all add: IndexedValueType_value_def)
  have h2: "\<exists>t\<in>set ?types. IndexedValueType_value t = None" using k by simp
  from parse_fails_at_first_unrecognized [OF h1 h2]
  obtain j where j: "j < length ?types" and bad: "IndexedValueType_value (?types ! j) = None"
    and first: "\<forall>i<j. IndexedValueType_value (?types ! i) \<noteq> None"
    and r: "parseSearchAttributes IndexedValueType_value [''A'', ''B'', ''C''] ?types
               = Return (None, Some (Err (''the type: '' @ ?types ! j
                                          @ '' is not a valid type for a search attribute'')))"
    by blast
  from j have "j = 0 \<or> j = 1 \<or> j = 2" by auto
  moreover have "j \<noteq> 0"
  proof
    assume "j = 0"
    with bad have "IndexedValueType_value ''Keyword'' = None" by simp
    with K show False by simp
  qed
  moreover have "j \<noteq> 2"
  proof
    assume "j = 2"
    then have "(1::nat) < j" by simp
    with first have "IndexedValueType_value (?types ! 1) \<noteq> None" by blast
    with k show False by simp
  qed
  ultimately have "j = 1" by blast
  with r have "parseSearchAttributes IndexedValueType_value [''A'', ''B'', ''C''] ?types
       = Return (None, Some (Err ''the type: keyword is not a valid type for a search attribute''))"
    by simp
  with h1 k b show ?thesis by simp
qed

subsection \<open>C4: the search-attribute flags come as a pair\<close>

text \<open>
  C4: for every input in which exactly one of the search-attribute key list and type list
  is explicitly set, validation fails: \<open>searchAttributesValid\<close> returns the error of line
  182 and \<open>Before\<close> returns an error with exit code 1. For every input in which both are
  unset, \<open>searchAttributesValid\<close> returns \<^verbatim>\<open>nil\<close>, \<open>Action\<close> does not call the parser, and
  the option list it hands to \<open>NewServer\<close> holds no search-attribute directive.
\<close>

theorem search_attribute_pairing:
  "(IsSet (search_attributes_key c) \<noteq> IsSet (search_attributes_type c) \<longrightarrow>
      searchAttributesValid q c
        = Some (Exit (''ERROR: both '' @ q searchAttrType @ '' and '' @ q searchAttrKey
                      @ '' must be set at the same time, or omitted completely'') 1)
      \<and> (\<exists>m. Before q c = Some (Exit m 1)))
   \<and> (\<not> IsSet (search_attributes_key c) \<and> \<not> IsSet (search_attributes_type c) \<longrightarrow>
      searchAttributesValid q c = None
      \<and> (\<forall>ks ts. Call_parseSearchAttributes ks ts \<notin> set (fst (Action tv cfg env c)))
      \<and> (\<forall>opts sa. Call_NewServer opts \<in> set (fst (Action tv cfg env c))
            \<longrightarrow> WithSearchAttributes sa \<notin> set opts))"
proof (intro conjI impI)
  assume one: "IsSet (search_attributes_key c) \<noteq> IsSet (search_attributes_type c)"
  then show v: "searchAttributesValid q c
        = Some (Exit (''ERROR: both '' @ q searchAttrType @ '' and '' @ q searchAttrKey
                      @ '' must be set at the same time, or omitted completely'') 1)"
    by (auto simp: searchAttributesValid_def)
  then show "\<exists>m. Before q c = Some (Exit m 1)"
    by (simp add: Before_def)
next
  assume none: "\<not> IsSet (search_attributes_key c) \<and> \<not> IsSet (search_attributes_type c)"
  then show "searchAttributesValid q c = None"
    by (simp add: searchAttributesValid_def)
  from none show "\<forall>ks ts. Call_parseSearchAttributes ks ts \<notin> set (fst (Action tv cfg env c))"
    by (simp add: Action_parse_called)
  show "\<forall>opts sa. Call_NewServer opts \<in> set (fst (Action tv cfg env c))
            \<longrightarrow> WithSearchAttributes sa \<notin> set opts"
  proof (intro allI impI)
    fix opts sa
    assume "Call_NewServer opts \<in> set (fst (Action tv cfg env c))"
    from Action_composed [OF this] none show "WithSearchAttributes sa \<notin> set opts"
      by (auto split: if_splits)
  qed
qed

text \<open>
  Only the key list set: \<^verbatim>\<open>start --search-attributes-key CustomID\<close>. Nothing set:
  \<^verbatim>\<open>start\<close>, where the server is built from the four base directives.
\<close>

theorem search_attribute_pairing_witness:
  \<open>IsSet (search_attributes_key (no_flags\<lparr>search_attributes_key := Some [''CustomID'']\<rparr>))
     \<noteq> IsSet (search_attributes_type (no_flags\<lparr>search_attributes_key := Some [''CustomID'']\<rparr>))
   \<and> Before quote_plain (no_flags\<lparr>search_attributes_key := Some [''CustomID'']\<rparr>)
       = Some (Exit ''ERROR: both "search-attributes-type" and "search-attributes-key" must be set at the same time, or omitted completely'' 1)
   \<and> \<not> IsSet (search_attributes_key no_flags) \<and> \<not> IsSet (search_attributes_type no_flags)
   \<and> Before quote_plain no_flags = None
   \<and> fst (Action IndexedValueType_value example_cfg example_env no_flags)
       = [Call_NewServer [WithFrontendPort 7233, WithDatabaseFilePath ''default.db'',
                          WithNamespaces [], WithUpstreamOptions [InterruptOn_InterruptCh]],
          Call_Start]
   \<and> (\<forall>ks ts. Call_parseSearchAttributes ks ts
          \<notin> set (fst (Action IndexedValueType_value example_cfg example_env no_flags)))\<close>
proof -
  let ?c = "no_flags\<lparr>search_attributes_key := Some [''CustomID'']\<rparr>"
  have one: "IsSet (search_attributes_key ?c) \<noteq> IsSet (search_attributes_type ?c)"
    by (simp add: IsSet_def no_flags_def)
  have none: "\<not> IsSet (search_attributes_key no_flags) \<and> \<not> IsSet (search_attributes_type no_flags)"
    by (simp add: IsSet_def no_flags_def)
  have b: "Before quote_plain ?c
       = Some (Exit (''ERROR: both '' @ quote_plain searchAttrType @ '' and ''
                     @ quote_plain searchAttrKey
                     @ '' must be set at the same time, or omitted completely'') 1)"
    using search_attribute_pairing [of ?c quote_plain] one
    by (simp add: Before_def no_flags_def IsSet_def)
  have p: "\<forall>ks ts. Call_parseSearchAttributes ks ts
          \<notin> set (fst (Action IndexedValueType_value example_cfg example_env no_flags))"
    using search_attribute_pairing [of no_flags quote_plain IndexedValueType_value example_cfg example_env]
      none by blast
  have n: "Before quote_plain no_flags = None"
    by (simp add: Before_def searchAttributesValid_def no_flags_def IsSet_def
          String_log_format_def flagValue_def)
  have a: "fst (Action IndexedValueType_value example_cfg example_env no_flags)
       = [Call_NewServer [WithFrontendPort 7233, WithDatabaseFilePath ''default.db'',
                          WithNamespaces [], WithUpstreamOptions [InterruptOn_InterruptCh]],
          Call_Start]"
    by (simp add: Action_def Action_logger_def Action_serve_def no_flags_def example_cfg_def
          example_env_def IsSet_def Int_port_def String_filename_def StringSlice_namespace_def
          Bool_ephemeral_def String_log_format_def flagValue_def)
  from one none b p n a show ?thesis
    by (simp add: quote_plain_def searchAttrType_def searchAttrKey_def)
qed

subsection \<open>C5: the log format\<close>

text \<open>
  C5, as stated: for every log-format value other than \<^verbatim>\<open>json\<close> and \<^verbatim>\<open>pretty\<close>,
  validation fails with a message citing the bad value and the flag name. This fails on
  the code when an earlier check fails too: the log format is checked last (line 112),
  and the message is the one of the earlier check. The input below is
  \<^verbatim>\<open>start --ephemeral --filename foo.db --log-format xml\<close>.
\<close>

theorem log_format_message_counterexample:
  \<open>String_log_format (no_flags\<lparr>ephemeral := Some True, filename := Some ''foo.db'',
                                log_format := Some ''xml''\<rparr>) = ''xml''
   \<and> Before quote_plain (no_flags\<lparr>ephemeral := Some True, filename := Some ''foo.db'',
                                   log_format := Some ''xml''\<rparr>)
       = Some (Exit ''ERROR: only one of "ephemeral" or "filename" flags may be passed at a time'' 1)
   \<and> Before quote_plain (no_flags\<lparr>ephemeral := Some True, filename := Some ''foo.db'',
                                   log_format := Some ''xml''\<rparr>)
       \<noteq> Some (Exit ''bad value "xml" passed for flag "log-format"'' 1)\<close>
  by (simp add: Before_def IsSet_def no_flags_def String_log_format_def flagValue_def
        quote_plain_def ephemeralFlag_def dbPathFlag_def)

text \<open>
  C5, amended: for every resolved log-format value other than \<^verbatim>\<open>json\<close> and
  \<^verbatim>\<open>pretty\<close>, validation fails with exit code 1, and when the earlier checks pass (no
  positional argument, not both of ephemeral and filename set, the search-attribute
  checks pass) the message is the one of line 115, citing the bad value and the flag
  name. With \<^verbatim>\<open>json\<close> or \<^verbatim>\<open>pretty\<close> validation passes exactly when those earlier
  checks pass. The option list handed to \<open>NewServer\<close> holds a logger directive exactly
  when the value is \<^verbatim>\<open>pretty\<close>.
\<close>

theorem log_format_checked:
  "(String_log_format c \<noteq> ''json'' \<and> String_log_format c \<noteq> ''pretty'' \<longrightarrow>
      (\<exists>m. Before q c = Some (Exit m 1))
      \<and> (Args c = [] \<and> \<not> (IsSet (ephemeral c) \<and> IsSet (filename c))
           \<and> searchAttributesValid q c = None \<longrightarrow>
         Before q c = Some (Exit (''bad value '' @ q (String_log_format c)
                                  @ '' passed for flag '' @ q logFormatFlag) 1)))
   \<and> (String_log_format c = ''json'' \<or> String_log_format c = ''pretty'' \<longrightarrow>
      (Before q c = None \<longleftrightarrow>
         Args c = [] \<and> \<not> (IsSet (ephemeral c) \<and> IsSet (filename c))
         \<and> searchAttributesValid q c = None))
   \<and> (Call_NewServer opts \<in> set (fst (Action tv cfg env c)) \<longrightarrow>
      ((\<exists>l. WithLogger l \<in> set opts) \<longleftrightarrow> String_log_format c = ''pretty''))"
proof (intro conjI impI)
  assume bad: "String_log_format c \<noteq> ''json'' \<and> String_log_format c \<noteq> ''pretty''"
  then have "Before q c \<noteq> None"
    by (auto simp: Before_def split: option.splits)
  then show "\<exists>m. Before q c = Some (Exit m 1)"
    using Before_exit_1 [of q c] by auto
  assume "Args c = [] \<and> \<not> (IsSet (ephemeral c) \<and> IsSet (filename c))
           \<and> searchAttributesValid q c = None"
  with bad show "Before q c = Some (Exit (''bad value '' @ q (String_log_format c)
                                  @ '' passed for flag '' @ q logFormatFlag) 1)"
    by (simp add: Before_def)
next
  assume "String_log_format c = ''json'' \<or> String_log_format c = ''pretty''"
  then show "Before q c = None \<longleftrightarrow>
         Args c = [] \<and> \<not> (IsSet (ephemeral c) \<and> IsSet (filename c))
         \<and> searchAttributesValid q c = None"
    by (auto simp: Before_def split: option.splits)
next
  assume "Call_NewServer opts \<in> set (fst (Action tv cfg env c))"
  from Action_composed [OF this]
  show "(\<exists>l. WithLogger l \<in> set opts) \<longleftrightarrow> String_log_format c = ''pretty''"
    by (auto split: if_splits)
qed

text \<open>
  Scenario 5 of the specification, \<^verbatim>\<open>start --log-format xml\<close>, is rejected with the
  message of line 115; \<^verbatim>\<open>start\<close> (format \<^verbatim>\<open>json\<close>) and
  \<^verbatim>\<open>start --log-format pretty\<close> pass, the second with a logger directive at the end of
  the option list.
\<close>

theorem log_format_checked_witness:
  \<open>Before quote_plain (no_flags\<lparr>log_format := Some ''xml''\<rparr>)
     = Some (Exit ''bad value "xml" passed for flag "log-format"'' 1)
   \<and> String_log_format no_flags = ''json'' \<and> Before quote_plain no_flags = None
   \<and> Before quote_plain (no_flags\<lparr>log_format := Some ''pretty''\<rparr>) = None
   \<and> Call_NewServer [WithFrontendPort 7233, WithDatabaseFilePath ''default.db'',
                      WithNamespaces [], WithUpstreamOptions [InterruptOn_InterruptCh],
                      WithLogger (NewZapLogger ())]
       \<in> set (fst (Action IndexedValueType_value example_cfg example_env
                      (no_flags\<lparr>log_format := Some ''pretty''\<rparr>)))
   \<and> (\<exists>l. WithLogger l \<in> set [WithFrontendPort 7233, WithDatabaseFilePath ''default.db'',
                      WithNamespaces [], WithUpstreamOptions [InterruptOn_InterruptCh],
                      WithLogger (NewZapLogger ())])\<close>
proof -
  let ?x = "no_flags\<lparr>log_format := Some ''xml''\<rparr>"
  let ?p = "no_flags\<lparr>log_format := Some ''pretty''\<rparr>"
  let ?opts = "[WithFrontendPort 7233, WithDatabaseFilePath ''default.db'',
                WithNamespaces [], WithUpstreamOptions [InterruptOn_InterruptCh],
                WithLogger (NewZapLogger ())] :: unit ServerOption list"
  have fx: "String_log_format ?x \<noteq> ''json'' \<and> String_log_format ?x \<noteq> ''pretty''"
    and fj: "String_log_format no_flags = ''json''"
    and fp: "String_log_format ?p = ''pretty''"
    by (simp_all add: String_log_format_def flagValue_def no_flags_def)
  have early: "Args c = [] \<and> \<not> (IsSet (ephemeral c) \<and> IsSet (filename c))
           \<and> searchAttributesValid quote_plain c = None"
    if "c = ?x \<or> c = no_flags \<or> c = ?p" for c
    using that by (auto simp: searchAttributesValid_def IsSet_def no_flags_def)
  have called: "Call_NewServer ?opts
       \<in> set (fst (Action IndexedValueType_value example_cfg example_env ?p))"
    by (simp add: Action_def Action_logger_def Action_serve_def no_flags_def example_cfg_def
          example_env_def IsSet_def Int_port_def String_filename_def StringSlice_namespace_def
          Bool_ephemeral_def String_log_format_def flagValue_def)
  have "Before quote_plain ?x = Some (Exit (''bad value '' @ quote_plain (String_log_format ?x)
                                  @ '' passed for flag '' @ quote_plain logFormatFlag) 1)"
    using log_format_checked [of ?x quote_plain] fx early [of ?x] by blast
  then have 1: \<open>Before quote_plain ?x
     = Some (Exit ''bad value "xml" passed for flag "log-format"'' 1)\<close>
    by (simp add: quote_plain_def logFormatFlag_def String_log_format_def flagValue_def
          no_flags_def)
  have 2: "Before quote_plain no_flags = None"
    using log_format_checked [of no_flags quote_plain] fj early [of no_flags] by blast
  have 3: "Before quote_plain ?p = None"
    using log_format_checked [of ?p quote_plain] fp early [of ?p] by blast
  have 4: "\<exists>l. WithLogger l \<in> set ?opts"
    using log_format_checked [of ?p quote_plain ?opts IndexedValueType_value example_cfg
        example_env] called fp by blast
  from 1 2 3 4 fj called show ?thesis by blast
qed

subsection \<open>C6: the base directives\<close>

text \<open>
  C6: whenever \<open>Action\<close> hands an option list to \<open>NewServer\<close>, the list starts with the
  frontend-port, database-file-path, namespace-list and upstream-interrupt directives, in
  that order, built from the resolved flag values; the database-file-path directive is
  there whether or not ephemeral mode is requested. When ephemeral mode is requested the
  persistence-disabled directive follows directly after these four; otherwise the list
  holds no such directive.
\<close>

theorem composed_base_options:
  assumes "Call_NewServer opts \<in> set (fst (Action tv cfg env c))"
  shows "take 4 opts = [WithFrontendPort (Int_port cfg c),
                        WithDatabaseFilePath (String_filename cfg c),
                        WithNamespaces (StringSlice_namespace c),
                        WithUpstreamOptions [InterruptOn_InterruptCh]]
       \<and> (Bool_ephemeral cfg c \<longrightarrow> 4 < length opts \<and> opts ! 4 = WithPersistenceDisabled)
       \<and> (\<not> Bool_ephemeral cfg c \<longrightarrow> WithPersistenceDisabled \<notin> set opts)"
  using Action_composed [OF assms] by (auto split: if_splits)

text \<open>
  Scenario 1 of the specification, \<^verbatim>\<open>start --ephemeral --port 7777\<close>: validation passes
  and the server is built from the four base directives, with port 7777 and the default
  database path, followed by the persistence-disabled directive.
\<close>

theorem composed_base_options_witness:
  "Before quote_plain (no_flags\<lparr>ephemeral := Some True, port := Some 7777\<rparr>) = None
   \<and> fst (Action IndexedValueType_value example_cfg example_env
            (no_flags\<lparr>ephemeral := Some True, port := Some 7777\<rparr>))
     = [Call_NewServer [WithFrontendPort 7777, WithDatabaseFilePath ''default.db'',
                        WithNamespaces [], WithUpstreamOptions [InterruptOn_InterruptCh],
                        WithPersistenceDisabled],
        Call_Start]
   \<and> Bool_ephemeral example_cfg (no_flags\<lparr>ephemeral := Some True, port := Some 7777\<rparr>)
   \<and> [WithFrontendPort 7777, WithDatabaseFilePath ''default.db'', WithNamespaces [],
       WithUpstreamOptions [InterruptOn_InterruptCh], WithPersistenceDisabled] ! 4
     = (WithPersistenceDisabled :: unit ServerOption)"
proof -
  let ?c = "no_flags\<lparr>ephemeral := Some True, port := Some 7777\<rparr>"
  let ?opts = "[WithFrontendPort 7777, WithDatabaseFilePath ''default.db'', WithNamespaces [],
       WithUpstreamOptions [InterruptOn_InterruptCh], WithPersistenceDisabled]
       :: unit ServerOption list"
  have b: "Before quote_plain ?c = None"
    by (simp add: Before_def searchAttributesValid_def no_flags_def IsSet_def
          String_log_format_def flagValue_def)
  have a: "fst (Action IndexedValueType_value example_cfg example_env ?c)
     = [Call_NewServer ?opts, Call_Start]"
    by (simp add: Action_def Action_logger_def Action_serve_def no_flags_def example_cfg_def
          example_env_def IsSet_def Int_port_def String_filename_def StringSlice_namespace_def
          Bool_ephemeral_def String_log_format_def flagValue_def)
  then have m: "Call_NewServer ?opts
      \<in> set (fst (Action IndexedValueType_value example_cfg example_env ?c))"
    by simp
  have e: "Bool_ephemeral example_cfg ?c"
    by (simp add: Bool_ephemeral_def flagValue_def no_flags_def)
  from composed_base_options [OF m] e have "?opts ! 4 = WithPersistenceDisabled"
    by blast
  with b a e show ?thesis by blast
qed

subsection \<open>C7: a length mismatch is rejected, and the parser runs only after validation\<close>

text \<open>
  C7: for every input whose search-attribute key and type lists are both set and of
  unequal length, validation fails with exit code 1, with the message of line 185 when
  the two earlier checks pass. Whenever validation fails the run makes no call at all,
  so the parser is not invoked; and whenever the run does invoke the parser, validation
  has passed and the two lists it is given have the same length.
\<close>

theorem length_mismatch_rejected_before_parsing:
  "(search_attributes_key c = Some ks \<and> search_attributes_type c = Some ts
      \<and> length ks \<noteq> length ts \<longrightarrow>
      (\<exists>m. Before q c = Some (Exit m 1))
      \<and> (Args c = [] \<and> \<not> (IsSet (ephemeral c) \<and> IsSet (filename c)) \<longrightarrow>
           Before q c = Some (Exit (''ERROR: number of search attributes (type/key) in ''
                                    @ q searchAttrType @ '' and '' @ q searchAttrKey
                                    @ '' must be the same'') 1)))
   \<and> (Before q c \<noteq> None \<longrightarrow> fst (Run q tv cfg env c) = [])
   \<and> (Call_parseSearchAttributes ks' ts' \<in> set (fst (Run q tv cfg env c)) \<longrightarrow>
        Before q c = None \<and> length ks' = length ts')"
proof (intro conjI impI)
  assume a: "search_attributes_key c = Some ks \<and> search_attributes_type c = Some ts
      \<and> length ks \<noteq> length ts"
  then have v: "searchAttributesValid q c
      = Some (Exit (''ERROR: number of search attributes (type/key) in ''
                                    @ q searchAttrType @ '' and '' @ q searchAttrKey
                                    @ '' must be the same'') 1)"
    by (auto simp: searchAttributesValid_def IsSet_def StringSlice_searchAttrKey_def
          StringSlice_searchAttrType_def flagValue_def)
  then show "\<exists>m. Before q c = Some (Exit m 1)"
    by (simp add: Before_def)
  assume "Args c = [] \<and> \<not> (IsSet (ephemeral c) \<and> IsSet (filename c))"
  with v show "Before q c = Some (Exit (''ERROR: number of search attributes (type/key) in ''
                                    @ q searchAttrType @ '' and '' @ q searchAttrKey
                                    @ '' must be the same'') 1)"
    by (simp add: Before_def)
next
  assume "Before q c \<noteq> None"
  then show "fst (Run q tv cfg env c) = []"
    by (auto simp: Run_def)
next
  assume p: "Call_parseSearchAttributes ks' ts' \<in> set (fst (Run q tv cfg env c))"
  then show b: "Before q c = None"
    by (cases "Before q c") (simp_all add: Run_def)
  with p have "Call_parseSearchAttributes ks' ts' \<in> set (fst (Action tv cfg env c))"
    by (simp add: Run_def)
  then have "IsSet (search_attributes_type c)" and "IsSet (search_attributes_key c)"
    and "ks' = StringSlice_searchAttrKey c" and "ts' = StringSlice_searchAttrType c"
    by (simp_all add: Action_parse_called)
  with Before_None_lengths [OF b] show "length ks' = length ts'"
    by simp
qed

text \<open>
  Scenario 4 of the specification,
  \<^verbatim>\<open>start --search-attributes-key A,B --search-attributes-type Keyword\<close>, fails and
  nothing is called; in scenario 3,
  \<^verbatim>\<open>start --search-attributes-key CustomID --search-attributes-type Keyword\<close>, the
  parser is called.
\<close>

theorem length_mismatch_rejected_before_parsing_witness:
  \<open>Before quote_plain (no_flags\<lparr>search_attributes_key := Some [''A'', ''B''],
                                 search_attributes_type := Some [''Keyword'']\<rparr>)
     = Some (Exit ''ERROR: number of search attributes (type/key) in "search-attributes-type" and "search-attributes-key" must be the same'' 1)
   \<and> fst (Run quote_plain IndexedValueType_value example_cfg example_env
            (no_flags\<lparr>search_attributes_key := Some [''A'', ''B''],
                      search_attributes_type := Some [''Keyword'']\<rparr>)) = []
   \<and> Call_parseSearchAttributes [''CustomID''] [''Keyword'']
       \<in> set (fst (Run quote_plain IndexedValueType_value example_cfg example_env
                      (no_flags\<lparr>search_attributes_key := Some [''CustomID''],
                                search_attributes_type := Some [''Keyword'']\<rparr>)))
   \<and> Before quote_plain (no_flags\<lparr>search_attributes_key := Some [''CustomID''],
                                   search_attributes_type := Some [''Keyword'']\<rparr>) = None\<close>
proof -
  let ?m = "no_flags\<lparr>search_attributes_key := Some [''A'', ''B''],
                     search_attributes_type := Some [''Keyword'']\<rparr>"
  let ?s = "no_flags\<lparr>search_attributes_key := Some [''CustomID''],
                     search_attributes_type := Some [''Keyword'']\<rparr>"
  have h: "search_attributes_key ?m = Some [''A'', ''B'']
      \<and> search_attributes_type ?m = Some [''Keyword'']
      \<and> length [''A'', ''B''] \<noteq> length [''Keyword'']"
    and e: "Args ?m = [] \<and> \<not> (IsSet (ephemeral ?m) \<and> IsSet (filename ?m))"
    by (simp_all add: no_flags_def IsSet_def)
  note t = length_mismatch_rejected_before_parsing
  have "Before quote_plain ?m
     = Some (Exit (''ERROR: number of search attributes (type/key) in ''
                   @ quote_plain searchAttrType @ '' and '' @ quote_plain searchAttrKey
                   @ '' must be the same'') 1)"
    using t [where c = ?m and ks = "[''A'', ''B'']" and ts = "[''Keyword'']"
        and q = quote_plain] h e by blast
  then have 1: \<open>Before quote_plain ?m
     = Some (Exit ''ERROR: number of search attributes (type/key) in "search-attributes-type" and "search-attributes-key" must be the same'' 1)\<close>
    by (simp add: quote_plain_def searchAttrType_def searchAttrKey_def)
  then have "Before quote_plain ?m \<noteq> None" by simp
  then have 2: "fst (Run quote_plain IndexedValueType_value example_cfg example_env ?m) = []"
    using t [where c = ?m and q = quote_plain and tv = IndexedValueType_value
        and cfg = example_cfg and env = example_env] by blast
  have 3: "Call_parseSearchAttributes [''CustomID''] [''Keyword'']
       \<in> set (fst (Run quote_plain IndexedValueType_value example_cfg example_env ?s))"
    by (simp add: Run_def Before_def searchAttributesValid_def Action_def Action_logger_def
          Action_serve_def parseSearchAttributes_def IndexedValueType_value_def no_flags_def
          example_cfg_def example_env_def IsSet_def Int_port_def String_filename_def
          StringSlice_namespace_def StringSlice_searchAttrKey_def StringSlice_searchAttrType_def
          Bool_ephemeral_def String_log_format_def flagValue_def)
  then have 4: "Before quote_plain ?s = None"
    using t [where c = ?s and q = quote_plain and tv = IndexedValueType_value
        and cfg = example_cfg and env = example_env and ks' = "[''CustomID'']"
        and ts' = "[''Keyword'']"] by blast
  from 1 2 3 4 show ?thesis by blast
qed

subsection \<open>C8: the exit status\<close>

text \<open>
  C8: the process ends with status 1 and the error's message on every validation failure,
  on a parse failure of the search attributes, when the logger or the server cannot be
  constructed, and when the server fails to start. It ends with status 0 and the message
  of line 160 when the started server stops without error, and with status 0 only then.
  No other status occurs, and the process never ends by a panic.
\<close>

theorem exit_status:
  "(Before q c = Some e \<longrightarrow> (\<exists>m. e = Exit m 1 \<and> main q tv cfg env c = Exited 1 m))
   \<and> (Call_parseSearchAttributes ks ts \<in> set (fst (Run q tv cfg env c))
        \<and> parseSearchAttributes tv ks ts = Return (sa, Some e') \<longrightarrow>
      (\<exists>m. e' = Err m \<and> main q tv cfg env c = Exited 1 m))
   \<and> (Call_Build \<in> set (fst (Run q tv cfg env c))
        \<and> Build env CapitalColorLevelEncoder [WithCaller False, AddStacktrace ErrorLevel] = Inl m1
      \<longrightarrow> main q tv cfg env c = Exited 1 m1)
   \<and> (Call_NewServer opts \<in> set (fst (Run q tv cfg env c)) \<longrightarrow>
        (NewServer env opts = Inl m2 \<longrightarrow> main q tv cfg env c = Exited 1 m2)
      \<and> (NewServer env opts = Inr s \<and> Start env s = Start_returns (Some m3) \<longrightarrow>
           main q tv cfg env c = Exited 1 (''Unable to start server. Error: '' @ m3))
      \<and> (NewServer env opts = Inr s \<and> Start env s = Start_returns None \<longrightarrow>
           main q tv cfg env c = Exited 0 ''All services are stopped.'')
      \<and> (NewServer env opts = Inr s \<and> Start env s = Start_blocks \<longrightarrow>
           main q tv cfg env c = Running))
   \<and> (main q tv cfg env c = Exited code msg \<longrightarrow>
        (code = 0 \<or> code = 1)
      \<and> (code = 0 \<longrightarrow> msg = ''All services are stopped.''
            \<and> (\<exists>opts s. Call_NewServer opts \<in> set (fst (Run q tv cfg env c))
                   \<and> NewServer env opts = Inr s \<and> Start env s = Start_returns None)))
   \<and> main q tv cfg env c \<noteq> Crashed p"
proof -
  have validation: "\<exists>m. x = Exit m 1 \<and> main q tv cfg env c = Exited 1 m"
    if "Before q c = Some x" for x
  proof -
    from Before_exit_1 [OF that] obtain m where "x = Exit m 1" by blast
    with that show ?thesis by (simp add: main_def Run_def)
  qed
  have parse: "\<exists>m. e' = Err m \<and> main q tv cfg env c = Exited 1 m"
    if "Call_parseSearchAttributes ks ts \<in> set (fst (Run q tv cfg env c))"
      and p: "parseSearchAttributes tv ks ts = Return (sa, Some e')"
  proof -
    from Run_calls_Action [OF that(1)] have r: "Run q tv cfg env c = Action tv cfg env c"
      by simp
    with that(1) have "IsSet (search_attributes_type c) \<and> IsSet (search_attributes_key c)"
      and "ks = StringSlice_searchAttrKey c" and "ts = StringSlice_searchAttrType c"
      by (simp_all add: Action_parse_called)
    with p Action_parse_error have "snd (Action tv cfg env c) = Returned (Some e')"
      by blast
    moreover from parse_error_is_Err [OF p] obtain m where "e' = Err m" by blast
    ultimately show ?thesis using r by (simp add: main_def)
  qed
  have logger: "main q tv cfg env c = Exited 1 m1"
    if "Call_Build \<in> set (fst (Run q tv cfg env c))"
      and b: "Build env CapitalColorLevelEncoder [WithCaller False, AddStacktrace ErrorLevel] = Inl m1"
  proof -
    from Run_calls_Action [OF that(1)] have r: "Run q tv cfg env c = Action tv cfg env c"
      by simp
    with that(1) Action_Build [OF _ b] have "snd (Action tv cfg env c) = Returned (Some (Err m1))"
      by simp
    with r show ?thesis by (simp add: main_def)
  qed
  have served: "snd (Run q tv cfg env c) = snd (Action_serve env [] opts)"
    if "Call_NewServer opts \<in> set (fst (Run q tv cfg env c))"
  proof -
    from Run_calls_Action [OF that] have r: "Run q tv cfg env c = Action tv cfg env c"
      by simp
    with that Action_snd show ?thesis by simp
  qed
  have server: "(NewServer env opts = Inl m2 \<longrightarrow> main q tv cfg env c = Exited 1 m2)
      \<and> (NewServer env opts = Inr s \<and> Start env s = Start_returns (Some m3) \<longrightarrow>
           main q tv cfg env c = Exited 1 (''Unable to start server. Error: '' @ m3))
      \<and> (NewServer env opts = Inr s \<and> Start env s = Start_returns None \<longrightarrow>
           main q tv cfg env c = Exited 0 ''All services are stopped.'')
      \<and> (NewServer env opts = Inr s \<and> Start env s = Start_blocks \<longrightarrow>
           main q tv cfg env c = Running)"
    if "Call_NewServer opts \<in> set (fst (Run q tv cfg env c))"
    using served [OF that] by (auto simp: main_def Action_serve_def)
  have no_crash: "main q tv cfg env c \<noteq> Crashed p"
  proof (cases "Before q c")
    case None
    with Action_no_panic [OF None, of tv cfg env] show ?thesis
      by (auto simp: main_def Run_def split: result.splits option.splits error.splits)
  next
    case (Some y)
    then show ?thesis
      by (auto simp: main_def Run_def split: error.splits)
  qed
  have exact: "(code = 0 \<or> code = 1)
      \<and> (code = 0 \<longrightarrow> msg = ''All services are stopped.''
            \<and> (\<exists>opts s. Call_NewServer opts \<in> set (fst (Run q tv cfg env c))
                   \<and> NewServer env opts = Inr s \<and> Start env s = Start_returns None))"
    if x: "main q tv cfg env c = Exited code msg"
  proof (cases "Before q c")
    case (Some y)
    from validation [OF Some] x show ?thesis by auto
  next
    case None
    then have r: "Run q tv cfg env c = Action tv cfg env c" by (simp add: Run_def)
    from x obtain ro where ro: "snd (Action tv cfg env c) = Returned ro"
      by (auto simp: main_def r split: result.splits)
    from Action_result [OF ro] x ro show ?thesis
      by (auto simp: main_def r)
  qed
  from validation parse logger server no_crash exact show ?thesis by blast
qed

text \<open>
  One run for each way to end: scenario 6 of the specification (a positional argument), an
  unknown type token, a logger that cannot be built, a server that cannot be constructed,
  a server that cannot start, and a clean shutdown.
\<close>

theorem exit_status_witness:
  "main quote_plain IndexedValueType_value example_cfg example_env
      (no_flags\<lparr>Args := [''extra-arg'']\<rparr>)
     = Exited 1 ''ERROR: start command doesn't support arguments.''
   \<and> main quote_plain IndexedValueType_value example_cfg example_env
      (no_flags\<lparr>search_attributes_key := Some [''CustomID''],
                search_attributes_type := Some [''Bogus'']\<rparr>)
     = Exited 1 ''the type: Bogus is not a valid type for a search attribute''
   \<and> main quote_plain IndexedValueType_value example_cfg
      (example_env\<lparr>Build := \<lambda>enc zopts. Inl ''no such encoder''\<rparr>)
      (no_flags\<lparr>log_format := Some ''pretty''\<rparr>)
     = Exited 1 ''no such encoder''
   \<and> main quote_plain IndexedValueType_value example_cfg
      (example_env\<lparr>NewServer := \<lambda>opts. Inl ''invalid port''\<rparr>) no_flags
     = Exited 1 ''invalid port''
   \<and> main quote_plain IndexedValueType_value example_cfg
      (example_env\<lparr>Start := \<lambda>s. Start_returns (Some ''address in use'')\<rparr>) no_flags
     = Exited 1 ''Unable to start server. Error: address in use''
   \<and> main quote_plain IndexedValueType_value example_cfg example_env no_flags
     = Exited 0 ''All services are stopped.''
   \<and> (\<exists>opts s. Call_NewServer opts
          \<in> set (fst (Run quote_plain IndexedValueType_value example_cfg example_env no_flags))
        \<and> NewServer example_env opts = Inr s \<and> Start example_env s = Start_returns None)"
proof -
  note t = exit_status [where q = quote_plain and tv = IndexedValueType_value
      and cfg = example_cfg]
  let ?base = "[WithFrontendPort 7233, WithDatabaseFilePath ''default.db'', WithNamespaces [],
                WithUpstreamOptions [InterruptOn_InterruptCh]] :: unit ServerOption list"
  let ?args = "no_flags\<lparr>Args := [''extra-arg'']\<rparr>"
  have "Before quote_plain ?args
      = Some (Exit ''ERROR: start command doesn't support arguments.'' 1)"
    by (simp add: Before_def no_flags_def)
  with t [where c = ?args and env = example_env
      and e = "Exit ''ERROR: start command doesn't support arguments.'' 1"]
  have 1: "main quote_plain IndexedValueType_value example_cfg example_env ?args
     = Exited 1 ''ERROR: start command doesn't support arguments.''"
    by auto
  let ?bogus = "no_flags\<lparr>search_attributes_key := Some [''CustomID''],
                         search_attributes_type := Some [''Bogus'']\<rparr>"
  have "Call_parseSearchAttributes [''CustomID''] [''Bogus'']
      \<in> set (fst (Run quote_plain IndexedValueType_value example_cfg example_env ?bogus))"
    and "parseSearchAttributes IndexedValueType_value [''CustomID''] [''Bogus'']
      = Return (None, Some (Err ''the type: Bogus is not a valid type for a search attribute''))"
    by (simp_all add: run_defs)
  with t [where c = ?bogus and env = example_env and ks = "[''CustomID'']"
      and ts = "[''Bogus'']" and sa = None
      and e' = "Err ''the type: Bogus is not a valid type for a search attribute''"]
  have 2: "main quote_plain IndexedValueType_value example_cfg example_env ?bogus
     = Exited 1 ''the type: Bogus is not a valid type for a search attribute''"
    by auto
  let ?pretty = "no_flags\<lparr>log_format := Some ''pretty''\<rparr>"
  let ?envB = "example_env\<lparr>Build := \<lambda>enc zopts. Inl ''no such encoder''\<rparr>"
  have "Call_Build \<in> set (fst (Run quote_plain IndexedValueType_value example_cfg ?envB ?pretty))"
    and "Build ?envB CapitalColorLevelEncoder [WithCaller False, AddStacktrace ErrorLevel]
      = Inl ''no such encoder''"
    by (simp_all add: run_defs)
  with t [where c = ?pretty and env = ?envB and ?m1.0 = "''no such encoder''"]
  have 3: "main quote_plain IndexedValueType_value example_cfg ?envB ?pretty
     = Exited 1 ''no such encoder''"
    by blast
  let ?envN = "example_env\<lparr>NewServer := \<lambda>opts. Inl ''invalid port''\<rparr>"
  have "Call_NewServer ?base
      \<in> set (fst (Run quote_plain IndexedValueType_value example_cfg ?envN no_flags))"
    and "NewServer ?envN ?base = Inl ''invalid port''"
    by (simp_all add: run_defs)
  with t [where c = no_flags and env = ?envN and opts = ?base and ?m2.0 = "''invalid port''"]
  have 4: "main quote_plain IndexedValueType_value example_cfg ?envN no_flags
     = Exited 1 ''invalid port''"
    by blast
  let ?envS = "example_env\<lparr>Start := \<lambda>s. Start_returns (Some ''address in use'')\<rparr>"
  have "Call_NewServer ?base
      \<in> set (fst (Run quote_plain IndexedValueType_value example_cfg ?envS no_flags))"
    and "NewServer ?envS ?base = Inr () \<and> Start ?envS () = Start_returns (Some ''address in use'')"
    by (simp_all add: run_defs)
  with t [where c = no_flags and env = ?envS and opts = ?base and s = "()"
      and ?m3.0 = "''address in use''"]
  have "main quote_plain IndexedValueType_value example_cfg ?envS no_flags
     = Exited 1 (''Unable to start server. Error: '' @ ''address in use'')"
    by blast
  then have 5: "main quote_plain IndexedValueType_value example_cfg ?envS no_flags
     = Exited 1 ''Unable to start server. Error: address in use''"
    by simp
  have "Call_NewServer ?base
      \<in> set (fst (Run quote_plain IndexedValueType_value example_cfg example_env no_flags))"
    and "NewServer example_env ?base = Inr () \<and> Start example_env () = Start_returns None"
    by (simp_all add: run_defs)
  with t [where c = no_flags and env = example_env and opts = ?base and s = "()"]
  have 6: "main quote_plain IndexedValueType_value example_cfg example_env no_flags
     = Exited 0 ''All services are stopped.''"
    by blast
  note only_clean = t [where c = no_flags and env = example_env and code = 0
      and msg = "''All services are stopped.''",
      THEN conjunct2, THEN conjunct2, THEN conjunct2, THEN conjunct2, THEN conjunct1]
  from only_clean 6
  have 7: "\<exists>opts s. Call_NewServer opts
          \<in> set (fst (Run quote_plain IndexedValueType_value example_cfg example_env no_flags))
        \<and> NewServer example_env opts = Inr s \<and> Start example_env s = Start_returns None"
    by simp
  from 1 2 3 4 5 6 7 show ?thesis by blast
qed

subsection \<open>C9: the parser reads the type list within bounds\<close>

text \<open>
  C9: for every call of \<open>parseSearchAttributes\<close> in which the type list is at least as
  long as the key list, every read \<^verbatim>\<open>types[i]\<close> is within bounds: the call returns and
  does not panic. In particular \<open>Action\<close>, the only caller, does not panic on any input
  that \<open>Before\<close> accepts, since \<open>Before\<close> accepts two set lists only when they have the
  same length.
\<close>

theorem parse_index_in_bounds:
  "(length keys \<le> length types \<longrightarrow> (\<exists>r. parseSearchAttributes tv keys types = Return r))
   \<and> (Before q c = None \<longrightarrow> snd (Action tv cfg env c) \<noteq> Panicked p)"
proof (intro conjI impI)
  assume "length keys \<le> length types"
  then have "0 + length keys \<le> length types" by simp
  from loop_no_panic [OF this] show "\<exists>r. parseSearchAttributes tv keys types = Return r"
    by (simp add: parseSearchAttributes_def)
next
  assume "Before q c = None"
  then show "snd (Action tv cfg env c) \<noteq> Panicked p"
    by (rule Action_no_panic)
qed

text \<open>
  One key against two types, and scenario 3 of the specification,
  \<^verbatim>\<open>start --search-attributes-key CustomID --search-attributes-type Keyword\<close>.
\<close>

theorem parse_index_in_bounds_witness:
  "length [''CustomID''] \<le> length [''Keyword'', ''Int'']
   \<and> (\<exists>r. parseSearchAttributes IndexedValueType_value [''CustomID''] [''Keyword'', ''Int'']
            = Return r)
   \<and> Before quote_plain (no_flags\<lparr>search_attributes_key := Some [''CustomID''],
                                   search_attributes_type := Some [''Keyword'']\<rparr>) = None
   \<and> snd (Action IndexedValueType_value example_cfg example_env
            (no_flags\<lparr>search_attributes_key := Some [''CustomID''],
                      search_attributes_type := Some [''Keyword'']\<rparr>))
       \<noteq> Panicked (IndexOutOfRange 0 0)"
proof -
  let ?c = "no_flags\<lparr>search_attributes_key := Some [''CustomID''],
                     search_attributes_type := Some [''Keyword'']\<rparr>"
  have l: "length [''CustomID''] \<le> length [''Keyword'', ''Int'']" by simp
  have b: "Before quote_plain ?c = None"
    by (simp add: run_defs)
  from parse_index_in_bounds [where keys = "[''CustomID'']" and types = "[''Keyword'', ''Int'']"
      and tv = IndexedValueType_value and q = quote_plain and c = ?c and cfg = example_cfg
      and env = example_env and p = "IndexOutOfRange 0 0"] l b
  show ?thesis by blast
qed

subsection \<open>C10: the first failing check is the one reported\<close>

text \<open>
  C10: \<open>Before\<close> reports the error of the earliest violated rule in the fixed order
  positional arguments, ephemeral/filename conflict, search-attribute pairing,
  search-attribute list length, log format; it returns \<^verbatim>\<open>nil\<close> when no rule is
  violated.
\<close>

theorem Before_reports_earliest: "Before q c = spec_first_failure q c"
  by (cases "search_attributes_key c"; cases "search_attributes_type c")
     (simp_all add: Before_def searchAttributesValid_def spec_first_failure_def spec_check_order_def
       IsSet_def StringSlice_searchAttrKey_def StringSlice_searchAttrType_def flagValue_def)

text \<open>
  \<^verbatim>\<open>start --log-format xml extra-arg\<close> violates the first and the last rule; the
  positional-argument error is reported.
\<close>

theorem Before_reports_earliest_witness:
  "spec_violates NoPositionalArguments (no_flags\<lparr>Args := [''extra-arg''], log_format := Some ''xml''\<rparr>)
   \<and> spec_violates LogFormatKnown (no_flags\<lparr>Args := [''extra-arg''], log_format := Some ''xml''\<rparr>)
   \<and> Before quote_plain (no_flags\<lparr>Args := [''extra-arg''], log_format := Some ''xml''\<rparr>)
       = Some (Exit ''ERROR: start command doesn't support arguments.'' 1)"
  using Before_reports_earliest [of quote_plain "no_flags\<lparr>Args := [''extra-arg''], log_format := Some ''xml''\<rparr>"]
  by (simp add: spec_first_failure_def spec_check_order_def no_flags_def String_log_format_def flagValue_def)

end
